theory Spec2Isabelle
  imports Main "HOL-Library.Sublist"
begin

section \<open>Strings and the regular expressions of the resolver\<close>

text \<open>
  JavaScript strings are modelled as \<^typ>\<open>string\<close>, one \<^typ>\<open>char\<close> per code unit.
  A value that may be \<^verbatim>\<open>undefined\<close> is a \<^typ>\<open>string option\<close>; \<open>truthy\<close> is
  the test that \<^verbatim>\<open>if (x)\<close> performs on such a value: \<^verbatim>\<open>undefined\<close> and the empty
  string are both falsy.
\<close>

definition truthy :: "string option \<Rightarrow> bool" where
  "truthy v = (case v of None \<Rightarrow> False | Some s \<Rightarrow> s \<noteq> [])"

definition startsWith :: "string \<Rightarrow> string \<Rightarrow> bool" where
  "startsWith s p = prefix p s"

definition endsWith :: "string \<Rightarrow> string \<Rightarrow> bool" where
  "endsWith s p = prefix (rev p) (rev s)"

text \<open>
  The dot of a regular expression matches every character but a line terminator. Of the
  four line terminators of the language, line feed and carriage return are characters
  of the model.
\<close>

definition isLineTerminator :: "char \<Rightarrow> bool" where
  "isLineTerminator c = (c = CHR 0x0A \<or> c = CHR 0x0D)"

primrec noLineTerminator :: "string \<Rightarrow> bool" where
  "noLineTerminator [] = True"
| "noLineTerminator (c # cs) = (\<not> isLineTerminator c \<and> noLineTerminator cs)"

text \<open>
  \<open>matchTail c s\<close> is the leftmost match of the expression \<^verbatim>\<open>/c.*$/\<close> in \<open>s\<close>
  (\<^verbatim>\<open>/\?.*$/\<close> for \<open>c\<close> the question mark), \<open>stripTail c s\<close> is
  \<^verbatim>\<open>s.replace(/c.*$/, '')\<close>.
\<close>

primrec matchTail :: "char \<Rightarrow> string \<Rightarrow> string option" where
  "matchTail c [] = None"
| "matchTail c (x # xs) =
     (if x = c \<and> noLineTerminator xs then Some (x # xs) else matchTail c xs)"

primrec stripTail :: "char \<Rightarrow> string \<Rightarrow> string" where
  "stripTail c [] = []"
| "stripTail c (x # xs) =
     (if x = c \<and> noLineTerminator xs then [] else x # stripTail c xs)"

text \<open>
  \<^verbatim>\<open>const queryMatch = s.match(/\?.*$/); const query = queryMatch ? queryMatch[0] : ''\<close>
\<close>

definition queryOf :: "string \<Rightarrow> string" where
  "queryOf s = (case matchTail (CHR ''?'') s of None \<Rightarrow> [] | Some q \<Rightarrow> q)"

text \<open>
  Modelled from the spec: \<open>cleanUrl\<close> of the utilities module, which is not among the
  sources; the spec describes it as the helper that strips the query and the hash from a
  path. The hash is removed first, then the query.
\<close>

definition cleanUrl :: "string \<Rightarrow> string" where
  "cleanUrl url = stripTail (CHR ''?'') (stripTail (CHR ''#'') url)"

text \<open>
  Modelled from the spec: \<open>moduleRE\<close> of the module-resolve plugin, which is not among
  the sources; the reserved prefix of a node-module reference is \<^verbatim>\<open>/@modules/\<close>, the
  prefix the normalizer itself writes. \<open>moduleRE_test\<close> is \<^verbatim>\<open>moduleRE.test(s)\<close> and
  \<open>moduleRE_strip\<close> is \<^verbatim>\<open>s.replace(moduleRE, '')\<close>.
\<close>

definition moduleRE_test :: "string \<Rightarrow> bool" where
  "moduleRE_test s = startsWith s ''/@modules/''"

definition moduleRE_strip :: "string \<Rightarrow> string" where
  "moduleRE_strip s = (if moduleRE_test s then drop 10 s else s)"

section \<open>The path library (POSIX flavour)\<close>

text \<open>
  The resolver runs the platform's \<^verbatim>\<open>path\<close> module; the model is its POSIX
  implementation (\<^verbatim>\<open>isWin\<close> false, separator \<^verbatim>\<open>/\<close>), on the segments of a path.
\<close>

primrec joinWith :: "string \<Rightarrow> string list \<Rightarrow> string" where
  "joinWith sep [] = []"
| "joinWith sep (x # xs) = (if xs = [] then x else x @ sep @ joinWith sep xs)"

primrec splitSlash :: "string \<Rightarrow> string list" where
  "splitSlash [] = [[]]"
| "splitSlash (c # cs) =
     (if c = CHR ''/'' then [] # splitSlash cs
      else (case splitSlash cs of [] \<Rightarrow> [[c]] | s # ss \<Rightarrow> (c # s) # ss))"

text \<open>
  \<open>normalizeString\<close>: empty segments and \<^verbatim>\<open>.\<close> are dropped, \<^verbatim>\<open>..\<close> removes the
  segment before it when there is one that is not itself \<^verbatim>\<open>..\<close>, and is kept only
  where the path may climb above its start. The accumulator holds the segments kept so
  far, last one first.
\<close>

fun normalizeString :: "bool \<Rightarrow> string list \<Rightarrow> string list \<Rightarrow> string list" where
  "normalizeString allowAboveRoot acc [] = rev acc"
| "normalizeString allowAboveRoot acc (s # ss) =
     (if s = [] \<or> s = ''.'' then normalizeString allowAboveRoot acc ss
      else if s = ''..'' then
        (case acc of
           a # as \<Rightarrow>
             if a \<noteq> ''..'' then normalizeString allowAboveRoot as ss
             else if allowAboveRoot then normalizeString allowAboveRoot (s # acc) ss
             else normalizeString allowAboveRoot acc ss
         | [] \<Rightarrow>
             if allowAboveRoot then normalizeString allowAboveRoot (s # acc) ss
             else normalizeString allowAboveRoot acc ss)
      else normalizeString allowAboveRoot (s # acc) ss)"

definition isAbsolute :: "string \<Rightarrow> bool" where
  "isAbsolute p = (case p of [] \<Rightarrow> False | c # _ \<Rightarrow> c = CHR ''/'')"

definition path_normalize :: "string \<Rightarrow> string" where
  "path_normalize p =
     (if p = [] then ''.''
      else
        let isAbs = isAbsolute p;
            trailingSeparator = (last p = CHR ''/'');
            body = joinWith ''/'' (normalizeString (\<not> isAbs) [] (splitSlash p))
        in if body = [] then
             (if isAbs then ''/'' else if trailingSeparator then ''./'' else ''.'')
           else (if isAbs then ''/'' else []) @ body @
                (if trailingSeparator then ''/'' else []))"

definition path_join :: "string list \<Rightarrow> string" where
  "path_join args =
     (let joined = joinWith ''/'' (filter (\<lambda>a. a \<noteq> []) args)
      in if joined = [] then ''.'' else path_normalize joined)"

text \<open>
  \<open>path_resolve\<close>: the arguments are taken from the right until one is absolute, the
  working directory standing in when none is; the result has no trailing separator.
\<close>

fun resolveArgs :: "string list \<Rightarrow> string \<Rightarrow> string" where
  "resolveArgs [] acc = acc"
| "resolveArgs (a # as) acc =
     (if a = [] then resolveArgs as acc
      else if isAbsolute a then a @ ''/'' @ acc
      else resolveArgs as (a @ ''/'' @ acc))"

definition path_resolve :: "string \<Rightarrow> string list \<Rightarrow> string" where
  "path_resolve cwd args =
     (let resolvedPath = resolveArgs (rev (cwd # args)) [];
          resolvedAbsolute = isAbsolute resolvedPath;
          body = joinWith ''/''
                   (normalizeString (\<not> resolvedAbsolute) [] (splitSlash resolvedPath))
      in if resolvedAbsolute then ''/'' @ body
         else if body \<noteq> [] then body else ''.'')"

text \<open>
  \<open>path_relative\<close>: both paths are resolved, their common leading segments dropped, and
  one \<^verbatim>\<open>..\<close> written for each segment left of \<open>from\<close>.
\<close>

fun dropCommon :: "string list \<Rightarrow> string list \<Rightarrow> string list \<times> string list" where
  "dropCommon (x # xs) (y # ys) = (if x = y then dropCommon xs ys else (x # xs, y # ys))"
| "dropCommon xs ys = (xs, ys)"

definition segmentsOf :: "string \<Rightarrow> string list" where
  "segmentsOf p = filter (\<lambda>s. s \<noteq> []) (splitSlash p)"

definition path_relative :: "string \<Rightarrow> string \<Rightarrow> string \<Rightarrow> string" where
  "path_relative cwd from to =
     (if from = to then []
      else
        let (f, t) = dropCommon (segmentsOf (path_resolve cwd [from]))
                                (segmentsOf (path_resolve cwd [to]))
        in joinWith ''/'' (map (\<lambda>_. ''..'') f @ t))"

text \<open>
  \<open>slash\<close> (the package of that name): backslashes become forward slashes, except in an
  extended-length path and in a path with a character outside ASCII.
\<close>

definition slash :: "string \<Rightarrow> string" where
  "slash p =
     (if startsWith p [CHR 0x5C, CHR 0x5C, CHR ''?'', CHR 0x5C]
         \<or> list_ex (\<lambda>c. (128 :: nat) < of_char c) p
      then p
      else map (\<lambda>c. if c = CHR 0x5C then CHR ''/'' else c) p)"

text \<open>\<open>path_dirname\<close>: the path up to the last separator that follows a segment.\<close>

definition path_dirname :: "string \<Rightarrow> string" where
  "path_dirname p =
     (if p = [] then ''.''
      else
        let r = dropWhile (\<lambda>c. c \<noteq> CHR ''/'')
                  (dropWhile (\<lambda>c. c = CHR ''/'') (rev (tl p)))
        in if r = [] then (if isAbsolute p then ''/'' else ''.'')
           else if isAbsolute p \<and> length r = 1 then ''//''
           else take (length r) p)"

section \<open>The world outside the resolver\<close>

datatype kind = File | Directory | Other

datatype error =
  Thrown string
| StatError string
| CheckFail
| NoPackageJson string

text \<open>
  What the resolver reads and does not own. \<open>stat\<close> is the file system: the kind of the
  entry a path names, \<open>None\<close> where a stat call fails. The next three are functions of
  the utilities module, which is not among the sources, and enter as parameters:
  \<open>lookupFile dir\<close> is \<^verbatim>\<open>lookupFile(dir, ['package.json'], true)\<close>; \<open>resolveFrom\<close> is the
  package resolution, \<open>None\<close> where it throws; \<open>parseNodeModuleId\<close> gives the scope, the
  name and the path inside the package. \<open>clientPublicPath\<close> is the constant of the client
  plugin, \<open>cwd\<close> the working directory of the process.
\<close>

record env =
  stat :: "string \<Rightarrow> kind option"
  lookupFile :: "string \<Rightarrow> string option"
  resolveFrom :: "string \<Rightarrow> string \<Rightarrow> string option"
  parseNodeModuleId :: "string \<Rightarrow> string \<times> string \<times> string"
  clientPublicPath :: string
  cwd :: string

definition existsSync :: "env \<Rightarrow> string \<Rightarrow> bool" where
  "existsSync e p = (stat e p \<noteq> None)"

definition statSync :: "env \<Rightarrow> string \<Rightarrow> error + kind" where
  "statSync e p = (case stat e p of None \<Rightarrow> Inl (StatError p) | Some k \<Rightarrow> Inr k)"

section \<open>Resolvers and the state of a resolver instance\<close>

text \<open>
  A function supplied by the user may throw: it returns \<open>Inl\<close> then. An alias is either
  a function or a record, whose entries are listed in the order \<^verbatim>\<open>for ... in\<close> visits
  them.
\<close>

datatype aliasSpec =
  AliasFunction "string \<Rightarrow> string option"
| AliasRecord "(string \<times> string) list"

record resolver =
  r_requestToFile :: "(string \<Rightarrow> string \<Rightarrow> error + string option) option"
  r_fileToRequest :: "(string \<Rightarrow> string \<Rightarrow> error + string option) option"
  r_alias :: "aliasSpec option"

text \<open>
  The variables \<open>createResolver\<close> closes over (\<open>root\<close> to \<open>fileToRequestCache\<close>) and the
  tables of module scope the resolver reads and writes.
\<close>

record state =
  root :: string
  resolvers :: "resolver list"
  literalAlias :: "string \<rightharpoonup> string"
  literalDirAlias :: "string \<rightharpoonup> string"
  requestToFileCache :: "string \<rightharpoonup> string"
  fileToRequestCache :: "string \<rightharpoonup> string"
  moduleIdToFileMap :: "string \<rightharpoonup> string"
  moduleFileToIdMap :: "string \<rightharpoonup> string"
  toyserverOptimizedMap :: "string \<rightharpoonup> string"
  nodeModulesFileMap :: "string \<rightharpoonup> string"
  cacheDirCache :: "string \<rightharpoonup> string option"

text \<open>\<open>nonEmpty v\<close> is the value of \<open>v\<close> when \<^verbatim>\<open>if (v)\<close> succeeds.\<close>

definition nonEmpty :: "string option \<Rightarrow> string option" where
  "nonEmpty v = (case v of None \<Rightarrow> None | Some s \<Rightarrow> if s = [] then None else Some s)"

section \<open>Fuzzy file paths\<close>

definition supportedExts :: "string list" where
  "supportedExts = [''.mjs'', ''.js'', ''.ts'', ''.jsx'', ''.tsx'', ''.json'']"

definition isFile :: "env \<Rightarrow> string \<Rightarrow> bool" where
  "isFile e file = (case statSync e file of Inl _ \<Rightarrow> False | Inr k \<Rightarrow> k = File)"


text \<open>The loop of \<open>resolveFilePathPostfix\<close> over the extensions; \<open>[]\<close> when it runs out.\<close>

primrec probeExts :: "env \<Rightarrow> string \<Rightarrow> string list \<Rightarrow> string" where
  "probeExts e cleanPath [] = []"
| "probeExts e cleanPath (ext # exts) =
     (if isFile e (cleanPath @ ext) then ext
      else if isFile e (path_join [cleanPath, ''/index'' @ ext]) then ''/index'' @ ext
      else probeExts e cleanPath exts)"

definition resolveFilePathPostfix :: "env \<Rightarrow> string \<Rightarrow> string option" where
  "resolveFilePathPostfix e filePath =
     (let cleanPath = cleanUrl filePath
      in if \<not> isFile e cleanPath then
           (let postfix = probeExts e cleanPath supportedExts;
                query = queryOf filePath;
                resolved = cleanPath @ postfix @ query
            in if resolved \<noteq> filePath then Some postfix else None)
         else None)"

text \<open>
  The last step of \<open>requestToFile\<close> before the result is cached: a postfix that starts
  with a separator is joined on, any other is appended.
\<close>

definition applyPostfix :: "env \<Rightarrow> string \<Rightarrow> string" where
  "applyPostfix e resolved =
     (case nonEmpty (resolveFilePathPostfix e resolved) of
        None \<Rightarrow> resolved
      | Some postfix \<Rightarrow>
          if hd postfix = CHR ''/'' then path_join [resolved, postfix]
          else resolved @ postfix)"

section \<open>The optimizer cache and the node-module locator\<close>

definition OPTIMIZE_CACHE_DIR :: string where
  "OPTIMIZE_CACHE_DIR = ''node_modules/.vite_opt_cache''"

definition resolveOptimizedCacheDir :: "env \<Rightarrow> state \<Rightarrow> string \<Rightarrow> string option \<times> state" where
  "resolveOptimizedCacheDir e st rt =
     (case cacheDirCache st rt of
        Some cached \<Rightarrow> (cached, st)
      | None \<Rightarrow>
          (case nonEmpty (lookupFile e rt) of
             None \<Rightarrow> (None, st)
           | Some pkgPath \<Rightarrow>
               let cacheDir = path_join [path_dirname pkgPath, OPTIMIZE_CACHE_DIR]
               in (Some cacheDir,
                   st\<lparr>cacheDirCache := (cacheDirCache st)(rt \<mapsto> Some cacheDir)\<rparr>)))"

definition cacheKeyOf :: "string \<Rightarrow> string \<Rightarrow> string" where
  "cacheKeyOf rt ident = rt @ ''#'' @ ident"

definition tryResolve ::
  "env \<Rightarrow> state \<Rightarrow> string \<Rightarrow> string \<Rightarrow> string \<Rightarrow> (error + string option) \<times> state" where
  "tryResolve e st cacheDir cacheKey file0 =
     (let file = path_join [cacheDir, file0]
      in if existsSync e file then
           (case statSync e file of
              Inl err \<Rightarrow> (Inl err, st)
            | Inr k \<Rightarrow>
                if k = File then
                  (Inr (Some file),
                   st\<lparr>toyserverOptimizedMap := (toyserverOptimizedMap st)(cacheKey \<mapsto> file)\<rparr>)
                else (Inr None, st))
         else (Inr None, st))"

definition resolveOptimizedModule ::
  "env \<Rightarrow> state \<Rightarrow> string \<Rightarrow> string \<Rightarrow> (error + string option) \<times> state" where
  "resolveOptimizedModule e st rt ident =
     (let cacheKey = cacheKeyOf rt ident
      in case nonEmpty (toyserverOptimizedMap st cacheKey) of
           Some cached \<Rightarrow> (Inr (Some cached), st)
         | None \<Rightarrow>
             (case resolveOptimizedCacheDir e st rt of
                (cd, st1) \<Rightarrow>
                  (case nonEmpty cd of
                     None \<Rightarrow> (Inr None, st1)
                   | Some cacheDir \<Rightarrow>
                       (case tryResolve e st1 cacheDir cacheKey ident of
                          (Inl err, st2) \<Rightarrow> (Inl err, st2)
                        | (Inr r, st2) \<Rightarrow>
                            if truthy r then (Inr r, st2)
                            else tryResolve e st2 cacheDir cacheKey (ident @ ''.js'')))))"

definition resolveNodeModuleFile ::
  "env \<Rightarrow> state \<Rightarrow> string \<Rightarrow> string \<Rightarrow> string option \<times> state" where
  "resolveNodeModuleFile e st rt ident =
     (let cacheKey = cacheKeyOf rt ident
      in case nonEmpty (nodeModulesFileMap st cacheKey) of
           Some cached \<Rightarrow> (Some cached, st)
         | None \<Rightarrow>
             (case resolveFrom e rt ident of
                Some resolved \<Rightarrow>
                  (Some resolved,
                   st\<lparr>nodeModulesFileMap := (nodeModulesFileMap st)(cacheKey \<mapsto> resolved)\<rparr>)
              | None \<Rightarrow> (None, st)))"

section \<open>The resolver chain\<close>

definition defaultRequestToFile ::
  "env \<Rightarrow> state \<Rightarrow> string \<Rightarrow> string \<Rightarrow> (error + string) \<times> state" where
  "defaultRequestToFile e st publicPath rt =
     (let fromPublicOrRoot = (\<lambda>s.
            let publicDirPath = path_join [rt, ''public'', drop 1 publicPath]
            in if existsSync e publicDirPath then (Inr publicDirPath, s)
               else (Inr (path_join [rt, drop 1 publicPath]), s))
      in if moduleRE_test publicPath then
           (let ident = moduleRE_strip publicPath
            in case nonEmpty (moduleIdToFileMap st ident) of
                 Some cachedNodeModule \<Rightarrow> (Inr cachedNodeModule, st)
               | None \<Rightarrow>
                   (case resolveOptimizedModule e st rt ident of
                      (Inl err, st1) \<Rightarrow> (Inl err, st1)
                    | (Inr om, st1) \<Rightarrow>
                        (case nonEmpty om of
                           Some optimizedModule \<Rightarrow> (Inr optimizedModule, st1)
                         | None \<Rightarrow>
                             (case resolveNodeModuleFile e st1 rt ident of
                                (nm, st2) \<Rightarrow>
                                  (case nonEmpty nm of
                                     Some nodeModule \<Rightarrow>
                                       (Inr nodeModule,
                                        st2\<lparr>moduleIdToFileMap :=
                                              (moduleIdToFileMap st2)(ident \<mapsto> nodeModule)\<rparr>)
                                   | None \<Rightarrow> fromPublicOrRoot st2)))))
         else fromPublicOrRoot st)"

definition stripPublic :: "string \<Rightarrow> string" where
  "stripPublic s = (if startsWith s ''public/'' then drop 7 s else s)"

definition defaultFileToRequest :: "env \<Rightarrow> state \<Rightarrow> string \<Rightarrow> string \<Rightarrow> string" where
  "defaultFileToRequest e st filePath rt =
     (case nonEmpty (moduleFileToIdMap st filePath) of
        Some request \<Rightarrow> request
      | None \<Rightarrow> ''/'' @ stripPublic (slash (path_relative (cwd e) rt filePath)))"

text \<open>
  The loop of \<open>requestToFile\<close> over the resolvers: the first truthy answer, \<open>None\<close> when
  no resolver gives one, \<open>Inl\<close> when a resolver throws before that.
\<close>

primrec tryRequestToFile :: "resolver list \<Rightarrow> string \<Rightarrow> string \<Rightarrow> error + string option" where
  "tryRequestToFile [] publicPath rt = Inr None"
| "tryRequestToFile (r # rs) publicPath rt =
     (case r_requestToFile r of
        None \<Rightarrow> tryRequestToFile rs publicPath rt
      | Some f \<Rightarrow>
          (case f publicPath rt of
             Inl err \<Rightarrow> Inl err
           | Inr filepath \<Rightarrow>
               (case nonEmpty filepath of
                  Some resolved \<Rightarrow> Inr (Some resolved)
                | None \<Rightarrow> tryRequestToFile rs publicPath rt)))"

primrec tryFileToRequest :: "resolver list \<Rightarrow> string \<Rightarrow> string \<Rightarrow> error + string option" where
  "tryFileToRequest [] filePath rt = Inr None"
| "tryFileToRequest (r # rs) filePath rt =
     (case r_fileToRequest r of
        None \<Rightarrow> tryFileToRequest rs filePath rt
      | Some f \<Rightarrow>
          (case f filePath rt of
             Inl err \<Rightarrow> Inl err
           | Inr request \<Rightarrow>
               (case nonEmpty request of
                  Some req \<Rightarrow> Inr (Some req)
                | None \<Rightarrow> tryFileToRequest rs filePath rt)))"

definition requestToFile :: "env \<Rightarrow> state \<Rightarrow> string \<Rightarrow> (error + string) \<times> state" where
  "requestToFile e st publicPath =
     (case requestToFileCache st publicPath of
        Some cached \<Rightarrow> (Inr cached, st)
      | None \<Rightarrow>
          (case tryRequestToFile (resolvers st) publicPath (root st) of
             Inl err \<Rightarrow> (Inl err, st)
           | Inr found \<Rightarrow>
               (case (case found of
                        Some filepath \<Rightarrow> (Inr filepath, st)
                      | None \<Rightarrow> defaultRequestToFile e st publicPath (root st)) of
                  (Inl err, st1) \<Rightarrow> (Inl err, st1)
                | (Inr resolved0, st1) \<Rightarrow>
                    let resolved = applyPostfix e resolved0
                    in (Inr resolved,
                        st1\<lparr>requestToFileCache :=
                              (requestToFileCache st1)(publicPath \<mapsto> resolved)\<rparr>))))"

definition fileToRequest :: "env \<Rightarrow> state \<Rightarrow> string \<Rightarrow> (error + string) \<times> state" where
  "fileToRequest e st filePath =
     (case fileToRequestCache st filePath of
        Some cached \<Rightarrow> (Inr cached, st)
      | None \<Rightarrow>
          (case tryFileToRequest (resolvers st) filePath (root st) of
             Inl err \<Rightarrow> (Inl err, st)
           | Inr (Some request) \<Rightarrow> (Inr request, st)
           | Inr None \<Rightarrow>
               let res = defaultFileToRequest e st filePath (root st)
               in (Inr res,
                   st\<lparr>fileToRequestCache := (fileToRequestCache st)(filePath \<mapsto> res)\<rparr>)))"

section \<open>The public path normalizer\<close>




section \<open>Aliases and the public directory\<close>



definition isPublicRequest :: "env \<Rightarrow> state \<Rightarrow> string \<Rightarrow> (error + bool) \<times> state" where
  "isPublicRequest e st publicPath =
     (case requestToFile e st publicPath of
        (Inl err, st1) \<Rightarrow> (Inl err, st1)
      | (Inr file, st1) \<Rightarrow>
          (Inr (startsWith file (path_resolve (cwd e) [root st1, ''public''])), st1))"

section \<open>Building a resolver\<close>

text \<open>The resolver entry that \<open>resolveAlias\<close> pushes for a directory alias.\<close>

definition dirAliasResolver :: "env \<Rightarrow> string \<Rightarrow> string \<Rightarrow> resolver" where
  "dirAliasResolver e key target =
     \<lparr> r_requestToFile = Some (\<lambda>publicPath _.
         Inr (if startsWith publicPath key
              then Some (path_join [target, drop (length key) publicPath])
              else None)),
       r_fileToRequest = Some (\<lambda>filePath _.
         Inr (if startsWith filePath (target @ ''/'')
              then Some (slash (key @ path_relative (cwd e) target filePath))
              else None)),
       r_alias = None \<rparr>"






section \<open>Notions used to state the properties\<close>

text \<open>
  A clean absolute path is \<open>absPath ss\<close> for segments that are not empty, hold no
  separator and are neither \<^verbatim>\<open>.\<close> nor \<^verbatim>\<open>..\<close>.
\<close>

definition niceSeg :: "string \<Rightarrow> bool" where
  "niceSeg s = (s \<noteq> [] \<and> CHR ''/'' \<notin> set s \<and> s \<noteq> ''.'' \<and> s \<noteq> ''..'')"

definition absPath :: "string list \<Rightarrow> string" where
  "absPath ss = ''/'' @ joinWith ''/'' ss"

text \<open>
  The order of the probes as the specification gives it: the extensions in their fixed
  order, the bare suffix before the index file within each. \<open>probePath\<close> is the path a
  probe looks at.
\<close>

definition probeOrder :: "string list" where
  "probeOrder =
     [''.mjs'', ''/index.mjs'', ''.js'', ''/index.js'', ''.ts'', ''/index.ts'',
      ''.jsx'', ''/index.jsx'', ''.tsx'', ''/index.tsx'', ''.json'', ''/index.json'']"

definition probePath :: "string \<Rightarrow> string \<Rightarrow> string" where
  "probePath cleanPath q =
     (if hd q = CHR ''/'' then path_join [cleanPath, q] else cleanPath @ q)"

section \<open>A small project to run the resolver on\<close>

text \<open>
  Modelled from the spec: \<open>parseNodeModuleId\<close> of the utilities module, which is not
  among the sources; it parses the scope, the name and the path inside the package out
  of a module id.
\<close>

definition parseNodeModuleId_model :: "string \<Rightarrow> string \<times> string \<times> string" where
  "parseNodeModuleId_model ident =
     (let parts = splitSlash ident
      in if startsWith ident ''@'' then
           (case parts of
              scope # name # rest \<Rightarrow> (scope, name, joinWith ''/'' rest)
            | [scope] \<Rightarrow> (scope, [], [])
            | [] \<Rightarrow> ([], [], []))
         else
           (case parts of
              name # rest \<Rightarrow> ([], name, joinWith ''/'' rest)
            | [] \<Rightarrow> ([], [], [])))"

text \<open>
  The project lives in \<^verbatim>\<open>/proj\<close>; it has no package manifest and no installed
  packages.
\<close>

definition demoFiles :: "(string \<times> kind) list" where
  "demoFiles =
     [(''/proj'', Directory),
      (''/proj/foo.js'', File),
      (''/proj/foo'', Directory),
      (''/proj/foo/index.js'', File),
      (''/proj/bar'', Directory),
      (''/proj/bar/index.tsx'', File),
      (''/proj/x.js'', File),
      (''/proj/public'', Directory),
      (''/proj/public/x.js'', File),
      (''/proj/public/logo.png'', File),
      (''/proj/src'', Directory),
      (''/proj/src/app.js'', File),
      (''/proj/publicity'', Directory),
      (''/proj/publicity/x.js'', File),
      (''/proj/foo-dir'', Directory),
      (''/proj/foo-dir/util.ts'', File)]"

definition demoEnv :: env where
  "demoEnv =
     \<lparr> stat = map_of demoFiles,
       lookupFile = (\<lambda>_. None),
       resolveFrom = (\<lambda>_ _. None),
       parseNodeModuleId = parseNodeModuleId_model,
       clientPublicPath = ''/toyserver/client'',
       cwd = ''/proj'' \<rparr>"

definition emptyState :: "string \<Rightarrow> resolver list \<Rightarrow> state" where
  "emptyState rt rs =
     \<lparr> root = rt, resolvers = rs,
       literalAlias = Map.empty, literalDirAlias = Map.empty,
       requestToFileCache = Map.empty, fileToRequestCache = Map.empty,
       moduleIdToFileMap = Map.empty, moduleFileToIdMap = Map.empty,
       toyserverOptimizedMap = Map.empty, nodeModulesFileMap = Map.empty,
       cacheDirCache = Map.empty \<rparr>"

text \<open>A file lies under a directory when it is the directory or is below it.\<close>

definition liesUnder :: "string \<Rightarrow> string \<Rightarrow> bool" where
  "liesUnder dir file = (file = dir \<or> startsWith file (dir @ ''/''))"



text \<open>
  The resolver of the playground configuration, for a source directory \<open>srcPath\<close> and an
  aliased directory \<open>barDir\<close>.
\<close>

definition playgroundResolver :: "env \<Rightarrow> string \<Rightarrow> string \<Rightarrow> resolver" where
  "playgroundResolver e srcPath barDir =
     \<lparr> r_requestToFile = Some (\<lambda>publicPath _.
         Inr (if startsWith publicPath ''/@/''
              then Some (path_join [srcPath, drop 3 publicPath])
              else if startsWith publicPath ''/components/''
              then Some (path_join [srcPath, drop 12 publicPath])
              else None)),
       r_fileToRequest = Some (\<lambda>filePath _.
         Inr (if startsWith filePath srcPath
              then Some (''/@/'' @ path_relative (cwd e) srcPath filePath)
              else None)),
       r_alias = Some (AliasRecord [(''/@bar/'', barDir)]) \<rparr>"

definition playgroundState :: state where
  "playgroundState =
     emptyState ''/proj'' [playgroundResolver demoEnv ''/proj/src'' ''/proj/bar-dir'']"

text \<open>
  The optimizer cache directory that a state answers with for a root: the memoized
  value, or the one computed from the nearest manifest.
\<close>

definition cacheDirOf :: "env \<Rightarrow> state \<Rightarrow> string \<Rightarrow> string option" where
  "cacheDirOf e st rt =
     (case cacheDirCache st rt of
        Some cached \<Rightarrow> cached
      | None \<Rightarrow>
          (case nonEmpty (lookupFile e rt) of
             None \<Rightarrow> None
           | Some pkgPath \<Rightarrow> Some (path_join [path_dirname pkgPath, OPTIMIZE_CACHE_DIR])))"

text \<open>
  \<open>viaRequests e st st'\<close>: what calls of \<open>requestToFile\<close> may change between two states.
  The resolver itself and the cache of file to request stay, the cache of request to file
  keeps its entries, and the optimizer cache directory is answered the same.
\<close>

definition viaRequests :: "env \<Rightarrow> state \<Rightarrow> state \<Rightarrow> bool" where
  "viaRequests e st st' =
     (root st' = root st \<and> resolvers st' = resolvers st
      \<and> moduleFileToIdMap st' = moduleFileToIdMap st
      \<and> fileToRequestCache st' = fileToRequestCache st
      \<and> requestToFileCache st \<subseteq>\<^sub>m requestToFileCache st'
      \<and> cacheDirOf e st' = cacheDirOf e st)"

text \<open>A resolver whose functions return normally on every input.\<close>

definition returnsNormally :: "resolver \<Rightarrow> bool" where
  "returnsNormally r =
     ((\<forall>f. r_requestToFile r = Some f \<longrightarrow> (\<forall>p rt. \<exists>v. f p rt = Inr v))
      \<and> (\<forall>f. r_fileToRequest r = Some f \<longrightarrow> (\<forall>p rt. \<exists>v. f p rt = Inr v)))"

text \<open>
  A resolver declines a request when it has no request-to-file function or when that
  function returns nothing or the empty string; it answers with a file when the function
  returns that file and the file is not the empty string.
\<close>

definition declines :: "resolver \<Rightarrow> string \<Rightarrow> string \<Rightarrow> bool" where
  "declines r publicPath rt =
     (case r_requestToFile r of
        None \<Rightarrow> True
      | Some f \<Rightarrow> (case f publicPath rt of Inl _ \<Rightarrow> False | Inr v \<Rightarrow> nonEmpty v = None))"

definition answers :: "resolver \<Rightarrow> string \<Rightarrow> string \<Rightarrow> string \<Rightarrow> bool" where
  "answers r publicPath rt file =
     (case r_requestToFile r of
        None \<Rightarrow> False
      | Some f \<Rightarrow> f publicPath rt = Inr (Some file) \<and> file \<noteq> [])"

text \<open>
  Two states of the project in which the module id \<^verbatim>\<open>util\<close> is in the table of ids to
  files: one with a directory alias for the key \<^verbatim>\<open>/@modules/\<close>, one without resolvers.
\<close>

definition modulesAliasState :: state where
  "modulesAliasState =
     (emptyState ''/proj'' [dirAliasResolver demoEnv ''/@modules/'' ''/proj/foo-dir''])
       \<lparr>moduleIdToFileMap := [''util'' \<mapsto> ''/proj/src/app.js'']\<rparr>"

definition memoState :: state where
  "memoState =
     (emptyState ''/proj'' [])\<lparr>moduleIdToFileMap := [''util'' \<mapsto> ''/proj/src/app.js'']\<rparr>"

text \<open>
  Modelled from the spec: \<open>lookupFile\<close> of the utilities module, which is not among the
  sources; in the path-only mode it gives the nearest file named \<^verbatim>\<open>package.json\<close> at or
  above a directory. The walk stops at the directory that is its own parent; the bound
  on the steps is the length of the path.
\<close>

primrec lookupUp :: "nat \<Rightarrow> (string \<Rightarrow> kind option) \<Rightarrow> string \<Rightarrow> string option" where
  "lookupUp 0 fs dir = None"
| "lookupUp (Suc n) fs dir =
     (let fullPath = path_join [dir, ''package.json'']
      in if fs fullPath = Some File then Some fullPath
         else if path_dirname dir \<noteq> dir then lookupUp n fs (path_dirname dir)
         else None)"

definition lookupFile_model :: "(string \<Rightarrow> kind option) \<Rightarrow> string \<Rightarrow> string option" where
  "lookupFile_model fs dir = lookupUp (Suc (length dir)) fs dir"

text \<open>
  The project with a manifest, a pre-bundled \<^verbatim>\<open>vue\<close> in the optimizer cache and an
  installed package \<^verbatim>\<open>lodash\<close>, which is all that package resolution finds.
\<close>

definition pkgFiles :: "(string \<times> kind) list" where
  "pkgFiles =
     [(''/proj/package.json'', File),
      (''/proj/node_modules'', Directory),
      (''/proj/node_modules/.vite_opt_cache'', Directory),
      (''/proj/node_modules/.vite_opt_cache/vue.js'', File),
      (''/proj/node_modules/lodash'', Directory),
      (''/proj/node_modules/lodash/package.json'', File),
      (''/proj/node_modules/lodash/lodash.js'', File)] @ demoFiles"

definition pkgEnv :: env where
  "pkgEnv =
     \<lparr> stat = map_of pkgFiles,
       lookupFile = lookupFile_model (map_of pkgFiles),
       resolveFrom = (\<lambda>rt ident.
         if rt = ''/proj'' \<and> ident = ''lodash''
         then Some ''/proj/node_modules/lodash/lodash.js'' else None),
       parseNodeModuleId = parseNodeModuleId_model,
       clientPublicPath = ''/toyserver/client'',
       cwd = ''/proj'' \<rparr>"








section \<open>Paths: splitting, joining and normal forms\<close>

text \<open>The equations that run the model on the two projects.\<close>

lemmas demo_eval = demoEnv_def demoFiles_def isFile_def statSync_def existsSync_def
  cleanUrl_def queryOf_def isLineTerminator_def probePath_def probeOrder_def
  path_join_def path_normalize_def isAbsolute_def Let_def

lemmas path_eval = path_relative_def path_resolve_def segmentsOf_def slash_def stripPublic_def
  startsWith_def endsWith_def

lemmas chain_eval = requestToFile_def fileToRequest_def defaultRequestToFile_def
  defaultFileToRequest_def applyPostfix_def resolveFilePathPostfix_def nonEmpty_def
  moduleRE_test_def supportedExts_def emptyState_def

lemma splitSlash_ne: "splitSlash p \<noteq> []"
  by (induction p) (auto split: list.splits)

lemma splitSlash_noslash: "CHR ''/'' \<notin> set s \<Longrightarrow> splitSlash (s @ CHR ''/'' # p) = s # splitSlash p"
  by (induction s) (auto split: list.splits)

lemma splitSlash_single: "CHR ''/'' \<notin> set s \<Longrightarrow> splitSlash s = [s]"
  by (induction s) (auto split: list.splits)

lemma splitSlash_joinWith:
  "ss \<noteq> [] \<Longrightarrow> \<forall>s\<in>set ss. CHR ''/'' \<notin> set s \<Longrightarrow> splitSlash (joinWith ''/'' ss) = ss"
proof (induction ss)
  case Nil then show ?case by simp
next
  case (Cons a ss)
  show ?case
  proof (cases "ss = []")
    case True
    with Cons.prems show ?thesis by (simp add: splitSlash_single)
  next
    case False
    with Cons show ?thesis by (simp add: splitSlash_noslash)
  qed
qed

lemma joinWith_append:
  "xs \<noteq> [] \<Longrightarrow> ys \<noteq> [] \<Longrightarrow> joinWith sep (xs @ ys) = joinWith sep xs @ sep @ joinWith sep ys"
  by (induction xs) auto



lemma splitSlash_append_slash: "splitSlash (a @ CHR ''/'' # b) = splitSlash a @ splitSlash b"
  by (induction a) (auto split: list.splits simp: splitSlash_ne)


lemma normalizeString_filter:
  "\<forall>s\<in>set ss. s = [] \<or> niceSeg s \<Longrightarrow>
   normalizeString b acc ss = rev acc @ filter (\<lambda>s. s \<noteq> []) ss"
  by (induction ss arbitrary: acc) (auto simp: niceSeg_def)

lemma path_normalize_segments:
  assumes "p \<noteq> []" "isAbsolute p" "last p \<noteq> CHR ''/''"
    and "\<forall>s\<in>set (splitSlash p). s = [] \<or> niceSeg s"
  shows "path_normalize p = absPath (filter (\<lambda>s. s \<noteq> []) (splitSlash p))"
  using assms by (simp add: path_normalize_def Let_def normalizeString_filter absPath_def)

lemma probeExts_find:
  "probeExts e c exts =
     (case find (\<lambda>q. isFile e (probePath c q)) (concat (map (\<lambda>ext. [ext, ''/index'' @ ext]) exts)) of
        None \<Rightarrow> [] | Some q \<Rightarrow> q)"
  if "\<forall>ext\<in>set exts. hd ext \<noteq> CHR ''/''"
  using that by (induction exts) (auto simp: probePath_def)

lemma probeOrder_eq: "probeOrder = concat (map (\<lambda>ext. [ext, ''/index'' @ ext]) supportedExts)"
  by (simp add: probeOrder_def supportedExts_def)

lemma probeExts_supported:
  "probeExts e c supportedExts =
     (case find (\<lambda>q. isFile e (probePath c q)) probeOrder of None \<Rightarrow> [] | Some q \<Rightarrow> q)"
  unfolding probeOrder_eq by (rule probeExts_find) (simp add: supportedExts_def)

lemma find_probeOrder_ne: "find P probeOrder = Some q \<Longrightarrow> q \<noteq> [] \<and> q \<in> set probeOrder"
  by (auto simp: find_Some_iff probeOrder_def nth_Cons' split: if_splits)

lemma stripTail_prefix: "\<exists>r. s = stripTail c s @ r \<and> (r = [] \<or> hd r = c)"
  by (induction s) auto

lemma cleanUrl_rest: "\<exists>r. s = cleanUrl s @ r \<and> (r = [] \<or> hd r = CHR ''?'' \<or> hd r = CHR ''#'')"
proof -
  obtain r1 where r1: "s = stripTail (CHR ''#'') s @ r1" "r1 = [] \<or> hd r1 = CHR ''#''"
    using stripTail_prefix by blast
  obtain r2 where r2: "stripTail (CHR ''#'') s = cleanUrl s @ r2" "r2 = [] \<or> hd r2 = CHR ''?''"
    unfolding cleanUrl_def using stripTail_prefix by blast
  have "s = cleanUrl s @ (r2 @ r1)" using r1(1) r2(1) by simp
  moreover have "r2 @ r1 = [] \<or> hd (r2 @ r1) = CHR ''?'' \<or> hd (r2 @ r1) = CHR ''#''"
    using r1(2) r2(2) by (cases r2) auto
  ultimately show ?thesis by blast
qed

lemma postfix_changes_path:
  assumes "q \<noteq> []" "hd q \<noteq> CHR ''?''" "hd q \<noteq> CHR ''#''"
  shows "cleanUrl s @ q @ x \<noteq> s"
proof
  assume a: "cleanUrl s @ q @ x = s"
  obtain r where r: "s = cleanUrl s @ r" "r = [] \<or> hd r = CHR ''?'' \<or> hd r = CHR ''#''"
    using cleanUrl_rest by blast
  from a r(1) have "q @ x = r" by (metis same_append_eq)
  with assms r(2) show False by (cases q) auto
qed

lemma resolveFilePathPostfix_probe:
  assumes "\<not> isFile e (cleanUrl resolved)"
  shows "nonEmpty (resolveFilePathPostfix e resolved) =
           find (\<lambda>q. isFile e (probePath (cleanUrl resolved) q)) probeOrder"
proof (cases "find (\<lambda>q. isFile e (probePath (cleanUrl resolved) q)) probeOrder")
  case None
  then show ?thesis using assms
    by (simp add: resolveFilePathPostfix_def Let_def probeExts_supported nonEmpty_def)
next
  case (Some q)
  then have q: "q \<noteq> []" "q \<in> set probeOrder" using find_probeOrder_ne by blast+
  then have "hd q \<noteq> CHR ''?''" "hd q \<noteq> CHR ''#''" by (auto simp: probeOrder_def)
  then have "cleanUrl resolved @ q @ queryOf resolved \<noteq> resolved"
    using postfix_changes_path q(1) by blast
  then show ?thesis using assms Some q(1)
    by (simp add: resolveFilePathPostfix_def Let_def probeExts_supported nonEmpty_def)
qed

lemma niceSeg_last: "niceSeg t \<Longrightarrow> last t \<noteq> CHR ''/''"
  by (metis niceSeg_def last_in_set)

lemma path_join_index:
  assumes "\<forall>s\<in>set ss. niceSeg s" "ss \<noteq> []" "q \<in> set probeOrder" "hd q = CHR ''/''"
  shows "path_join [absPath ss, q] = absPath ss @ q"
proof -
  obtain t where t: "q = CHR ''/'' # t" "niceSeg t"
    using assms(3,4) by (auto simp: probeOrder_def niceSeg_def)
  have ne: "absPath ss \<noteq> []" by (simp add: absPath_def)
  have j: "joinWith ''/'' (filter (\<lambda>a. a \<noteq> []) [absPath ss, q]) = absPath ss @ CHR ''/'' # CHR ''/'' # t"
    using ne t by simp
  have sp: "splitSlash (absPath ss @ CHR ''/'' # CHR ''/'' # t) = ([] # ss) @ [] # [t]"
    using assms(1,2) t(2)
    by (simp add: splitSlash_append_slash absPath_def splitSlash_joinWith niceSeg_def splitSlash_single)
  have "path_normalize (absPath ss @ CHR ''/'' # CHR ''/'' # t) = absPath (ss @ [t])"
  proof -
    have "last (absPath ss @ CHR ''/'' # CHR ''/'' # t) \<noteq> CHR ''/''"
      using niceSeg_last[OF t(2)] t(2) by (simp add: niceSeg_def)
    moreover have "filter (\<lambda>s. s \<noteq> []) (([] # ss) @ [] # [t]) = ss @ [t]"
      using assms(1) t(2) by (auto simp: niceSeg_def intro!: filter_True)
    ultimately show ?thesis
      using path_normalize_segments[of "absPath ss @ CHR ''/'' # CHR ''/'' # t"] sp assms(1) t(2)
      by (auto simp: isAbsolute_def absPath_def)
  qed
  moreover have "absPath (ss @ [t]) = absPath ss @ q"
    using assms(2) t(1) by (simp add: absPath_def joinWith_append)
  ultimately show ?thesis using j by (simp add: path_join_def Let_def)
qed

section \<open>Fuzzy-suffix resolution\<close>

text \<open>
  Claim C5. For a resolved path that is not an existing regular file, the probes run in
  the order \<^verbatim>\<open>.mjs, .js, .ts, .jsx, .tsx, .json\<close>, the path with the extension before
  the index file with that extension; the first probe that finds a regular file gives
  the postfix, and when none does the path comes back unchanged. The probes look at the
  path without its query and hash. A bare extension is appended to the resolved path; an
  index postfix is joined on, which for a clean absolute path is appending it as well.
\<close>

theorem fuzzy_probe_order:
  assumes "\<not> isFile e (cleanUrl resolved)"
  shows "applyPostfix e resolved =
           (case find (\<lambda>q. isFile e (probePath (cleanUrl resolved) q)) probeOrder of
              None \<Rightarrow> resolved
            | Some q \<Rightarrow> if hd q = CHR ''/'' then path_join [resolved, q] else resolved @ q)
         \<and> ((\<forall>s\<in>set ss. niceSeg s) \<and> ss \<noteq> [] \<and> resolved = absPath ss \<longrightarrow>
            applyPostfix e resolved =
              resolved @ (case find (\<lambda>q. isFile e (probePath (cleanUrl resolved) q))
                                 probeOrder of
                            None \<Rightarrow> [] | Some q \<Rightarrow> q))"
proof -
  note p = resolveFilePathPostfix_probe[OF assms]
  have first: "applyPostfix e resolved =
           (case find (\<lambda>q. isFile e (probePath (cleanUrl resolved) q)) probeOrder of
              None \<Rightarrow> resolved
            | Some q \<Rightarrow> if hd q = CHR ''/'' then path_join [resolved, q] else resolved @ q)"
    by (simp add: applyPostfix_def p split: option.splits)
  have second: "applyPostfix e resolved =
              resolved @ (case find (\<lambda>q. isFile e (probePath (cleanUrl resolved) q))
                                 probeOrder of
                            None \<Rightarrow> [] | Some q \<Rightarrow> q)"
    if "\<forall>s\<in>set ss. niceSeg s" "ss \<noteq> []" "resolved = absPath ss"
  proof (cases "find (\<lambda>q. isFile e (probePath (cleanUrl resolved) q)) probeOrder")
    case None
    then show ?thesis using first by simp
  next
    case (Some q)
    then have "q \<in> set probeOrder" using find_probeOrder_ne by blast
    then show ?thesis using first Some that path_join_index[of ss q] by simp
  qed
  show ?thesis using first second by blast
qed

text \<open>
  In the project: \<^verbatim>\<open>foo.js\<close> wins over \<^verbatim>\<open>foo/index.js\<close>, \<^verbatim>\<open>bar\<close> has only an index
  file, and nothing answers for \<^verbatim>\<open>nothing\<close>.
\<close>

theorem fuzzy_probe_order_witness:
  "\<not> isFile demoEnv (cleanUrl ''/proj/foo'')
   \<and> applyPostfix demoEnv ''/proj/foo'' = ''/proj/foo.js''
   \<and> applyPostfix demoEnv ''/proj/bar'' = ''/proj/bar/index.tsx''
   \<and> applyPostfix demoEnv ''/proj/nothing'' = ''/proj/nothing''"
proof -
  have h1: "\<not> isFile demoEnv (cleanUrl ''/proj/foo'')"
    by (simp add: demo_eval)
  have h2: "\<not> isFile demoEnv (cleanUrl ''/proj/bar'')"
    by (simp add: demo_eval)
  have h3: "\<not> isFile demoEnv (cleanUrl ''/proj/nothing'')"
    by (simp add: demo_eval)
  have "applyPostfix demoEnv ''/proj/foo'' = ''/proj/foo.js''"
    using fuzzy_probe_order [OF h1, of "[''proj'', ''foo'']"]
    by (simp add: demo_eval)
  moreover have "applyPostfix demoEnv ''/proj/bar'' = ''/proj/bar/index.tsx''"
    using fuzzy_probe_order [OF h2, of "[''proj'', ''bar'']"]
    by (simp add: demo_eval)
  moreover have "applyPostfix demoEnv ''/proj/nothing'' = ''/proj/nothing''"
    using fuzzy_probe_order [OF h3, of "[''proj'', ''nothing'']"]
    by (simp add: demo_eval)
  ultimately show ?thesis using h1 by blast
qed

section \<open>Aliases\<close>














section \<open>The public directory and the cache of file to request\<close>

text \<open>
  Claim C6 at \<^verbatim>\<open>/publicity/x.js\<close>: the request resolves to a file of the directory
  \<^verbatim>\<open>/proj/publicity\<close>, which does not lie under \<^verbatim>\<open>/proj/public\<close>, and \<open>isPublicRequest\<close>
  answers true, since it compares the strings without a separator after the directory.
\<close>

theorem isPublicRequest_prefix_only:
  "fst (requestToFile demoEnv (emptyState ''/proj'' []) ''/publicity/x.js'') =
     Inr ''/proj/publicity/x.js''
   \<and> \<not> liesUnder ''/proj/public'' ''/proj/publicity/x.js''
   \<and> fst (isPublicRequest demoEnv (emptyState ''/proj'' []) ''/publicity/x.js'') = Inr True"
  by (simp add: isPublicRequest_def liesUnder_def chain_eval path_eval demo_eval)

text \<open>
  Claim C9 at \<^verbatim>\<open>/proj/src/app.js\<close> with the resolver of the playground: the resolver
  answers, \<open>fileToRequest\<close> returns at once, and the cache of the state it leaves does
  not hold the file.
\<close>

theorem fileToRequest_resolver_not_memoized:
  "fileToRequest demoEnv playgroundState ''/proj/src/app.js'' =
     (Inr ''/@/app.js'', playgroundState)
   \<and> fileToRequestCache playgroundState ''/proj/src/app.js'' = None"
  by (simp add: playgroundState_def playgroundResolver_def chain_eval path_eval demo_eval)

section \<open>What a call changes, and that it returns\<close>


lemma viaRequests_refl: "viaRequests e st st"
  by (simp add: viaRequests_def)

lemma viaRequests_trans: "viaRequests e a b \<Longrightarrow> viaRequests e b c \<Longrightarrow> viaRequests e a c"
  by (auto simp: viaRequests_def intro: map_le_trans)

lemma cacheDirOf_cong: "cacheDirCache st' = cacheDirCache st \<Longrightarrow> cacheDirOf e st' = cacheDirOf e st"
  by (simp add: cacheDirOf_def fun_eq_iff)


lemma resolveOptimizedCacheDir_cases:
  assumes "resolveOptimizedCacheDir e st rt = (cd, st')"
  shows "cd = cacheDirOf e st rt \<and>
         (st' = st \<or> (cacheDirCache st rt = None \<and>
                       st' = st\<lparr>cacheDirCache := (cacheDirCache st)(rt \<mapsto> cd)\<rparr>))"
  using assms
  by (auto simp: resolveOptimizedCacheDir_def cacheDirOf_def Let_def split: option.splits)

lemma cacheDirOf_memo:
  "cacheDirCache st rt = None \<Longrightarrow>
   cacheDirOf e (st\<lparr>cacheDirCache := (cacheDirCache st)(rt \<mapsto> cacheDirOf e st rt)\<rparr>) x
     = cacheDirOf e st x"
  by (simp add: cacheDirOf_def)

lemma resolveOptimizedCacheDir_via:
  assumes "resolveOptimizedCacheDir e st rt = (cd, st')"
  shows "viaRequests e st st'"
proof -
  from resolveOptimizedCacheDir_cases[OF assms]
  consider "st' = st"
    | "cacheDirCache st rt = None"
      "st' = st\<lparr>cacheDirCache := (cacheDirCache st)(rt \<mapsto> cacheDirOf e st rt)\<rparr>"
    by auto
  then show ?thesis
  proof cases
    case 1
    then show ?thesis by (simp add: viaRequests_refl)
  next
    case 2
    then have "cacheDirOf e st' = cacheDirOf e st"
      using cacheDirOf_memo[OF 2(1)] by (simp add: fun_eq_iff)
    then show ?thesis using 2(2) by (simp add: viaRequests_def)
  qed
qed

lemma viaRequests_frame:
  "root st' = root st \<Longrightarrow> resolvers st' = resolvers st \<Longrightarrow>
   moduleFileToIdMap st' = moduleFileToIdMap st \<Longrightarrow>
   fileToRequestCache st' = fileToRequestCache st \<Longrightarrow>
   requestToFileCache st' = requestToFileCache st \<Longrightarrow>
   cacheDirCache st' = cacheDirCache st \<Longrightarrow> viaRequests e st st'"
  using cacheDirOf_cong[of st' st e] by (simp add: viaRequests_def)

lemma tryResolve_via: "tryResolve e st cd key f = (out, st') \<Longrightarrow> viaRequests e st st'"
  by (rule viaRequests_frame) (auto simp: tryResolve_def Let_def split: if_splits sum.splits)

lemma tryResolve_ok: "\<exists>r st'. tryResolve e st cd key f = (Inr r, st')"
  by (auto simp: tryResolve_def Let_def existsSync_def statSync_def split: option.splits)

lemma resolveOptimizedModule_via:
  assumes "resolveOptimizedModule e st rt ident = (out, st')"
  shows "viaRequests e st st'"
proof (cases "nonEmpty (toyserverOptimizedMap st (cacheKeyOf rt ident))")
  case (Some c)
  with assms show ?thesis by (simp add: resolveOptimizedModule_def Let_def viaRequests_refl)
next
  case None
  obtain cd st1 where c: "resolveOptimizedCacheDir e st rt = (cd, st1)" by (metis surj_pair)
  note v1 = resolveOptimizedCacheDir_via[OF c]
  show ?thesis
  proof (cases "nonEmpty cd")
    case n: None
    with assms None c v1 show ?thesis by (simp add: resolveOptimizedModule_def Let_def)
  next
    case (Some cacheDir)
    obtain r st2 where t: "tryResolve e st1 cacheDir (cacheKeyOf rt ident) ident = (Inr r, st2)"
      using tryResolve_ok by blast
    note v2 = viaRequests_trans[OF v1 tryResolve_via[OF t]]
    show ?thesis
    proof (cases "truthy r")
      case True
      with assms None c Some t v2 show ?thesis by (simp add: resolveOptimizedModule_def Let_def)
    next
      case False
      with assms None c Some t
      have "tryResolve e st2 cacheDir (cacheKeyOf rt ident) (ident @ ''.js'') = (out, st')"
        by (simp add: resolveOptimizedModule_def Let_def)
      then show ?thesis using v2 tryResolve_via viaRequests_trans by blast
    qed
  qed
qed

lemma resolveOptimizedModule_ok: "\<exists>r st'. resolveOptimizedModule e st rt ident = (Inr r, st')"
proof (cases "nonEmpty (toyserverOptimizedMap st (cacheKeyOf rt ident))")
  case (Some c)
  then show ?thesis by (simp add: resolveOptimizedModule_def Let_def)
next
  case None
  obtain cd st1 where c: "resolveOptimizedCacheDir e st rt = (cd, st1)" by (metis surj_pair)
  show ?thesis
  proof (cases "nonEmpty cd")
    case n: None
    with None c show ?thesis by (simp add: resolveOptimizedModule_def Let_def)
  next
    case (Some cacheDir)
    obtain r st2 where t: "tryResolve e st1 cacheDir (cacheKeyOf rt ident) ident = (Inr r, st2)"
      using tryResolve_ok by blast
    obtain r' st3 where t': "tryResolve e st2 cacheDir (cacheKeyOf rt ident) (ident @ ''.js'') = (Inr r', st3)"
      using tryResolve_ok by blast
    show ?thesis using None c Some t t'
      by (simp add: resolveOptimizedModule_def Let_def)
  qed
qed

lemma resolveNodeModuleFile_via:
  "resolveNodeModuleFile e st rt ident = (out, st') \<Longrightarrow> viaRequests e st st'"
  by (rule viaRequests_frame)
     (auto simp: resolveNodeModuleFile_def Let_def split: option.splits)


lemma defaultRequestToFile_shape:
  "\<exists>f st'. defaultRequestToFile e st p rt = (Inr f, st') \<and> viaRequests e st st'"
proof (cases "moduleRE_test p")
  case False
  then show ?thesis
    by (simp add: defaultRequestToFile_def Let_def viaRequests_refl)
next
  case True
  let ?ident = "moduleRE_strip p"
  show ?thesis
  proof (cases "nonEmpty (moduleIdToFileMap st ?ident)")
    case (Some c)
    with True show ?thesis by (simp add: defaultRequestToFile_def Let_def viaRequests_refl)
  next
    case None
    obtain om st1 where o: "resolveOptimizedModule e st rt ?ident = (Inr om, st1)"
      using resolveOptimizedModule_ok by blast
    note v1 = resolveOptimizedModule_via[OF o]
    show ?thesis
    proof (cases "nonEmpty om")
      case (Some f)
      with True None o v1 show ?thesis by (simp add: defaultRequestToFile_def Let_def)
    next
      case n2: None
      obtain nm st2 where m: "resolveNodeModuleFile e st1 rt ?ident = (nm, st2)"
        by (metis surj_pair)
      note v2 = viaRequests_trans[OF v1 resolveNodeModuleFile_via[OF m]]
      show ?thesis
      proof (cases "nonEmpty nm")
        case (Some f)
        have "viaRequests e st2 (st2\<lparr>moduleIdToFileMap := (moduleIdToFileMap st2)(?ident \<mapsto> f)\<rparr>)"
          by (rule viaRequests_frame) simp_all
        then have "viaRequests e st (st2\<lparr>moduleIdToFileMap := (moduleIdToFileMap st2)(?ident \<mapsto> f)\<rparr>)"
          using v2 viaRequests_trans by blast
        with True None o n2 m Some show ?thesis
          by (simp add: defaultRequestToFile_def Let_def)
      next
        case n3: None
        with True None o n2 m v2 show ?thesis
          by (simp add: defaultRequestToFile_def Let_def)
      qed
    qed
  qed
qed

lemma tryRequestToFile_ok:
  "\<forall>r\<in>set rs. returnsNormally r \<Longrightarrow> \<exists>v. tryRequestToFile rs p rt = Inr v"
proof (induction rs)
  case Nil
  then show ?case by simp
next
  case (Cons r rs)
  then obtain v where v: "tryRequestToFile rs p rt = Inr v" by auto
  show ?case
  proof (cases "r_requestToFile r")
    case None
    then show ?thesis using v by simp
  next
    case (Some f)
    have "returnsNormally r" using Cons.prems by simp
    with Some obtain w where "f p rt = Inr w" unfolding returnsNormally_def by blast
    then show ?thesis using Some v by (simp split: option.splits)
  qed
qed

lemma tryFileToRequest_ok:
  "\<forall>r\<in>set rs. returnsNormally r \<Longrightarrow> \<exists>v. tryFileToRequest rs p rt = Inr v"
proof (induction rs)
  case Nil
  then show ?case by simp
next
  case (Cons r rs)
  then obtain v where v: "tryFileToRequest rs p rt = Inr v" by auto
  show ?case
  proof (cases "r_fileToRequest r")
    case None
    then show ?thesis using v by simp
  next
    case (Some f)
    have "returnsNormally r" using Cons.prems by simp
    with Some obtain w where "f p rt = Inr w" unfolding returnsNormally_def by blast
    then show ?thesis using Some v by (simp split: option.splits)
  qed
qed

text \<open>What an uncached call of \<open>requestToFile\<close> computes.\<close>

lemma requestToFile_miss:
  assumes "requestToFileCache st p = None"
  shows "requestToFile e st p =
     (case tryRequestToFile (resolvers st) p (root st) of
        Inl err \<Rightarrow> (Inl err, st)
      | Inr (Some f) \<Rightarrow>
          (Inr (applyPostfix e f),
           st\<lparr>requestToFileCache := (requestToFileCache st)(p \<mapsto> applyPostfix e f)\<rparr>)
      | Inr None \<Rightarrow>
          (case defaultRequestToFile e st p (root st) of
             (Inl err, st1) \<Rightarrow> (Inl err, st1)
           | (Inr f, st1) \<Rightarrow>
               (Inr (applyPostfix e f),
                st1\<lparr>requestToFileCache := (requestToFileCache st1)(p \<mapsto> applyPostfix e f)\<rparr>)))"
  using assms
  by (simp add: requestToFile_def Let_def split: sum.splits option.splits prod.splits)

lemma requestToFile_hit:
  "requestToFileCache st p = Some v \<Longrightarrow> requestToFile e st p = (Inr v, st)"
  by (simp add: requestToFile_def)





text \<open>
  Claim C10. When every function of every registered resolver returns normally,
  \<open>requestToFile\<close> and \<open>fileToRequest\<close> return normally, with a value, on every
  input and in every state: a failing stat is caught in \<open>isFile\<close> and guarded by
  \<open>existsSync\<close> elsewhere, and a failing package resolution gives no result.
\<close>

theorem request_and_file_total:
  assumes "\<forall>r\<in>set (resolvers st). returnsNormally r"
  shows "(\<exists>file st'. requestToFile e st publicPath = (Inr file, st'))
       \<and> (\<exists>request st'. fileToRequest e st filePath = (Inr request, st'))"
proof
  obtain found where t: "tryRequestToFile (resolvers st) publicPath (root st) = Inr found"
    using tryRequestToFile_ok[OF assms] by blast
  obtain f st1 where d: "defaultRequestToFile e st publicPath (root st) = (Inr f, st1)"
    using defaultRequestToFile_shape by blast
  show "\<exists>file st'. requestToFile e st publicPath = (Inr file, st')"
    using t d by (cases "requestToFileCache st publicPath")
      (auto simp: requestToFile_hit requestToFile_miss split: option.splits)
next
  obtain found where t: "tryFileToRequest (resolvers st) filePath (root st) = Inr found"
    using tryFileToRequest_ok[OF assms] by blast
  show "\<exists>request st'. fileToRequest e st filePath = (Inr request, st')"
    using t by (auto simp: fileToRequest_def Let_def split: option.splits)
qed

text \<open>The resolver of the playground returns normally; two calls that find nothing.\<close>

theorem request_and_file_total_witness:
  "(\<exists>file st'. requestToFile demoEnv playgroundState ''/@/nothing'' = (Inr file, st'))
   \<and> (\<exists>request st'. fileToRequest demoEnv playgroundState ''/nowhere/x'' = (Inr request, st'))"
proof -
  have h: "\<forall>r\<in>set (resolvers playgroundState). returnsNormally r"
    by (simp add: playgroundState_def emptyState_def playgroundResolver_def returnsNormally_def)
  show ?thesis
    using request_and_file_total [OF h, of demoEnv "''/@/nothing''" "''/nowhere/x''"]
    by blast
qed

section \<open>The order of request to file\<close>

lemma tryRequestToFile_declined:
  "declines r p rt \<Longrightarrow> tryRequestToFile (r # rs) p rt = tryRequestToFile rs p rt"
  by (auto simp: declines_def split: option.splits sum.splits)

lemma tryRequestToFile_answered:
  "answers r p rt v \<Longrightarrow> tryRequestToFile (r # rs) p rt = Inr (Some v)"
  by (auto simp: answers_def nonEmpty_def split: option.splits sum.splits)

lemma tryRequestToFile_first:
  "i < length rs \<Longrightarrow> \<forall>j<i. declines (rs ! j) p rt \<Longrightarrow> answers (rs ! i) p rt v \<Longrightarrow>
   tryRequestToFile rs p rt = Inr (Some v)"
proof (induction rs arbitrary: i)
  case Nil
  then show ?case by simp
next
  case (Cons r rs)
  show ?case
  proof (cases i)
    case 0
    with Cons.prems(3) show ?thesis
      by (simp add: tryRequestToFile_answered del: tryRequestToFile.simps(2))
  next
    case (Suc k)
    with Cons.prems have "declines r p rt" "k < length rs" "\<forall>j<k. declines (rs ! j) p rt"
      "answers (rs ! k) p rt v" by auto
    then show ?thesis using Cons.IH[of k] Suc
      by (simp add: tryRequestToFile_declined del: tryRequestToFile.simps(2))
  qed
qed

lemma tryRequestToFile_none:
  "\<forall>r\<in>set rs. declines r p rt \<Longrightarrow> tryRequestToFile rs p rt = Inr None"
  by (induction rs) (simp_all add: tryRequestToFile_declined del: tryRequestToFile.simps(2))

lemma defaultRequestToFile_memo:
  "moduleRE_test p \<Longrightarrow> nonEmpty (moduleIdToFileMap st (moduleRE_strip p)) = Some f \<Longrightarrow>
   defaultRequestToFile e st p rt = (Inr f, st)"
  by (simp add: defaultRequestToFile_def Let_def)

lemma defaultRequestToFile_optimized:
  "moduleRE_test p \<Longrightarrow> nonEmpty (moduleIdToFileMap st (moduleRE_strip p)) = None \<Longrightarrow>
   resolveOptimizedModule e st rt (moduleRE_strip p) = (Inr om, st1) \<Longrightarrow>
   nonEmpty om = Some f \<Longrightarrow>
   defaultRequestToFile e st p rt = (Inr f, st1)"
  by (simp add: defaultRequestToFile_def Let_def)

lemma defaultRequestToFile_nodeModule:
  "moduleRE_test p \<Longrightarrow> nonEmpty (moduleIdToFileMap st (moduleRE_strip p)) = None \<Longrightarrow>
   resolveOptimizedModule e st rt (moduleRE_strip p) = (Inr om, st1) \<Longrightarrow>
   nonEmpty om = None \<Longrightarrow>
   resolveNodeModuleFile e st1 rt (moduleRE_strip p) = (nm, st2) \<Longrightarrow>
   nonEmpty nm = Some f \<Longrightarrow>
   defaultRequestToFile e st p rt =
     (Inr f, st2\<lparr>moduleIdToFileMap := (moduleIdToFileMap st2)(moduleRE_strip p \<mapsto> f)\<rparr>)"
  by (simp add: defaultRequestToFile_def Let_def)

text \<open>
  Claim C4, as stated, fails: the resolver entries are asked before the module step, not
  after it. With a directory alias for the key \<^verbatim>\<open>/@modules/\<close>, the request
  \<^verbatim>\<open>/@modules/util\<close> matches the reserved prefix, is not cached, and its id is in the
  table of ids to files; the file returned is the one of the alias.
\<close>

theorem resolvers_before_module_step_counterexample:
  "moduleRE_test ''/@modules/util''
   \<and> requestToFileCache modulesAliasState ''/@modules/util'' = None
   \<and> moduleIdToFileMap modulesAliasState (moduleRE_strip ''/@modules/util'')
       = Some ''/proj/src/app.js''
   \<and> fst (requestToFile demoEnv modulesAliasState ''/@modules/util'')
       = Inr ''/proj/foo-dir/util.ts''"
  by (simp add: modulesAliasState_def dirAliasResolver_def moduleRE_strip_def
      chain_eval path_eval demo_eval)

text \<open>
  Claim C4, amended. For a public path that is not cached, the resolver entries are
  asked first, in registration order, and the first answer that is not empty is taken.
  Only when every entry declines does a path with the reserved prefix go through the
  module step: the prefix is stripped, the table of ids to files is consulted, then the
  optimizer locator, then node-module resolution, whose result is written into the table
  of ids to files. In each case the file found goes through the fuzzy-suffix step before
  it is returned.
\<close>

theorem resolvers_before_module_step:
  assumes "requestToFileCache st p = None"
  shows
   "(i < length (resolvers st) \<and> (\<forall>j<i. declines (resolvers st ! j) p (root st))
       \<and> answers (resolvers st ! i) p (root st) v
      \<longrightarrow> fst (requestToFile e st p) = Inr (applyPostfix e v))
    \<and> ((\<forall>r\<in>set (resolvers st). declines r p (root st)) \<and> moduleRE_test p
        \<and> nonEmpty (moduleIdToFileMap st (moduleRE_strip p)) = Some f
      \<longrightarrow> fst (requestToFile e st p) = Inr (applyPostfix e f))
    \<and> ((\<forall>r\<in>set (resolvers st). declines r p (root st)) \<and> moduleRE_test p
        \<and> nonEmpty (moduleIdToFileMap st (moduleRE_strip p)) = None
        \<and> resolveOptimizedModule e st (root st) (moduleRE_strip p) = (Inr om, st1)
        \<and> nonEmpty om = Some f
      \<longrightarrow> fst (requestToFile e st p) = Inr (applyPostfix e f))
    \<and> ((\<forall>r\<in>set (resolvers st). declines r p (root st)) \<and> moduleRE_test p
        \<and> nonEmpty (moduleIdToFileMap st (moduleRE_strip p)) = None
        \<and> resolveOptimizedModule e st (root st) (moduleRE_strip p) = (Inr om, st1)
        \<and> nonEmpty om = None
        \<and> resolveNodeModuleFile e st1 (root st) (moduleRE_strip p) = (nm, st2)
        \<and> nonEmpty nm = Some f
      \<longrightarrow> fst (requestToFile e st p) = Inr (applyPostfix e f)
          \<and> moduleIdToFileMap (snd (requestToFile e st p)) (moduleRE_strip p) = Some f)"
proof (intro conjI impI; (elim conjE)?)
  assume "i < length (resolvers st)" "\<forall>j<i. declines (resolvers st ! j) p (root st)"
    "answers (resolvers st ! i) p (root st) v"
  then have "tryRequestToFile (resolvers st) p (root st) = Inr (Some v)"
    by (rule tryRequestToFile_first)
  then show "fst (requestToFile e st p) = Inr (applyPostfix e v)"
    by (simp add: requestToFile_miss[OF assms])
next
  assume d: "\<forall>r\<in>set (resolvers st). declines r p (root st)" and m: "moduleRE_test p"
    and c: "nonEmpty (moduleIdToFileMap st (moduleRE_strip p)) = Some f"
  show "fst (requestToFile e st p) = Inr (applyPostfix e f)"
    using tryRequestToFile_none[OF d] defaultRequestToFile_memo[OF m c]
    by (simp add: requestToFile_miss[OF assms])
next
  assume d: "\<forall>r\<in>set (resolvers st). declines r p (root st)" and m: "moduleRE_test p"
    and c: "nonEmpty (moduleIdToFileMap st (moduleRE_strip p)) = None"
    and o: "resolveOptimizedModule e st (root st) (moduleRE_strip p) = (Inr om, st1)"
    and f: "nonEmpty om = Some f"
  show "fst (requestToFile e st p) = Inr (applyPostfix e f)"
    using tryRequestToFile_none[OF d] defaultRequestToFile_optimized[OF m c o f]
    by (simp add: requestToFile_miss[OF assms])
next
  assume d: "\<forall>r\<in>set (resolvers st). declines r p (root st)" and m: "moduleRE_test p"
    and c: "nonEmpty (moduleIdToFileMap st (moduleRE_strip p)) = None"
    and o: "resolveOptimizedModule e st (root st) (moduleRE_strip p) = (Inr om, st1)"
    and n: "nonEmpty om = None"
    and r: "resolveNodeModuleFile e st1 (root st) (moduleRE_strip p) = (nm, st2)"
    and f: "nonEmpty nm = Some f"
  show "fst (requestToFile e st p) = Inr (applyPostfix e f)"
    using tryRequestToFile_none[OF d] defaultRequestToFile_nodeModule[OF m c o n r f]
    by (simp add: requestToFile_miss[OF assms])
  show "moduleIdToFileMap (snd (requestToFile e st p)) (moduleRE_strip p) = Some f"
    using tryRequestToFile_none[OF d] defaultRequestToFile_nodeModule[OF m c o n r f]
    by (simp add: requestToFile_miss[OF assms])
qed

lemmas pkg_eval = pkgEnv_def pkgFiles_def demoFiles_def isFile_def statSync_def existsSync_def
  cleanUrl_def queryOf_def isLineTerminator_def path_join_def path_normalize_def
  isAbsolute_def Let_def lookupFile_model_def path_dirname_def OPTIMIZE_CACHE_DIR_def
  cacheKeyOf_def resolveOptimizedModule_def resolveOptimizedCacheDir_def tryResolve_def
  resolveNodeModuleFile_def truthy_def

text \<open>
  The alias answers before the table is looked at; without resolvers the table answers;
  \<^verbatim>\<open>vue\<close> comes from the optimizer cache; \<^verbatim>\<open>lodash\<close> comes from package resolution and is
  written into the table.
\<close>

theorem resolvers_before_module_step_witness:
  "fst (requestToFile demoEnv modulesAliasState ''/@modules/util'') = Inr ''/proj/foo-dir/util.ts''
   \<and> fst (requestToFile demoEnv memoState ''/@modules/util'') = Inr ''/proj/src/app.js''
   \<and> fst (requestToFile pkgEnv (emptyState ''/proj'' []) ''/@modules/vue'')
       = Inr ''/proj/node_modules/.vite_opt_cache/vue.js''
   \<and> fst (requestToFile pkgEnv (emptyState ''/proj'' []) ''/@modules/lodash'')
       = Inr ''/proj/node_modules/lodash/lodash.js''
   \<and> moduleIdToFileMap (snd (requestToFile pkgEnv (emptyState ''/proj'' []) ''/@modules/lodash''))
        ''lodash'' = Some ''/proj/node_modules/lodash/lodash.js''"
proof -
  have a: "requestToFileCache modulesAliasState ''/@modules/util'' = None"
    by (simp add: modulesAliasState_def emptyState_def)
  have "fst (requestToFile demoEnv modulesAliasState ''/@modules/util'')
          = Inr (applyPostfix demoEnv ''/proj/foo-dir/util'')"
    using resolvers_before_module_step [OF a, of 0 "''/proj/foo-dir/util''" demoEnv]
    by (simp add: modulesAliasState_def emptyState_def dirAliasResolver_def answers_def
        startsWith_def demo_eval)
  then have 1: "fst (requestToFile demoEnv modulesAliasState ''/@modules/util'')
          = Inr ''/proj/foo-dir/util.ts''"
    by (simp add: chain_eval demo_eval)
  have b: "requestToFileCache memoState ''/@modules/util'' = None"
    by (simp add: memoState_def emptyState_def)
  have "fst (requestToFile demoEnv memoState ''/@modules/util'')
          = Inr (applyPostfix demoEnv ''/proj/src/app.js'')"
    using resolvers_before_module_step [OF b, of _ _ demoEnv "''/proj/src/app.js''"]
    by (simp add: memoState_def emptyState_def moduleRE_test_def moduleRE_strip_def
        startsWith_def nonEmpty_def)
  then have 2: "fst (requestToFile demoEnv memoState ''/@modules/util'') = Inr ''/proj/src/app.js''"
    by (simp add: chain_eval demo_eval)
  have c: "requestToFileCache (emptyState ''/proj'' []) p = None" for p
    by (simp add: emptyState_def)
  obtain s1 where o: "resolveOptimizedModule pkgEnv (emptyState ''/proj'' []) ''/proj'' ''vue''
      = (Inr (Some ''/proj/node_modules/.vite_opt_cache/vue.js''), s1)"
    by (simp add: emptyState_def nonEmpty_def pkg_eval)
  have "fst (requestToFile pkgEnv (emptyState ''/proj'' []) ''/@modules/vue'')
          = Inr (applyPostfix pkgEnv ''/proj/node_modules/.vite_opt_cache/vue.js'')"
    using resolvers_before_module_step [OF c, of _ "''/@modules/vue''" _ pkgEnv
        "''/proj/node_modules/.vite_opt_cache/vue.js''"
        "Some ''/proj/node_modules/.vite_opt_cache/vue.js''" s1] o
    by (simp add: emptyState_def moduleRE_test_def moduleRE_strip_def startsWith_def
        nonEmpty_def)
  then have 3: "fst (requestToFile pkgEnv (emptyState ''/proj'' []) ''/@modules/vue'')
          = Inr ''/proj/node_modules/.vite_opt_cache/vue.js''"
    by (simp add: applyPostfix_def resolveFilePathPostfix_def nonEmpty_def pkg_eval)
  obtain s2 where o2: "resolveOptimizedModule pkgEnv (emptyState ''/proj'' []) ''/proj'' ''lodash''
      = (Inr None, s2)"
    by (simp add: emptyState_def nonEmpty_def pkg_eval)
  obtain s3 where n3: "resolveNodeModuleFile pkgEnv s2 ''/proj'' ''lodash''
      = (Some ''/proj/node_modules/lodash/lodash.js'', s3)"
    using o2 by (auto simp: emptyState_def nonEmpty_def pkg_eval)
  have "fst (requestToFile pkgEnv (emptyState ''/proj'' []) ''/@modules/lodash'')
          = Inr (applyPostfix pkgEnv ''/proj/node_modules/lodash/lodash.js'')
        \<and> moduleIdToFileMap (snd (requestToFile pkgEnv (emptyState ''/proj'' []) ''/@modules/lodash''))
            (moduleRE_strip ''/@modules/lodash'') = Some ''/proj/node_modules/lodash/lodash.js''"
    using resolvers_before_module_step [OF c, of _ "''/@modules/lodash''" _ pkgEnv
        "''/proj/node_modules/lodash/lodash.js''" None s2
        "Some ''/proj/node_modules/lodash/lodash.js''" s3] o2 n3
    by (simp add: emptyState_def moduleRE_test_def moduleRE_strip_def startsWith_def
        nonEmpty_def)
  then have 4: "fst (requestToFile pkgEnv (emptyState ''/proj'' []) ''/@modules/lodash'')
          = Inr ''/proj/node_modules/lodash/lodash.js''
        \<and> moduleIdToFileMap (snd (requestToFile pkgEnv (emptyState ''/proj'' []) ''/@modules/lodash''))
            ''lodash'' = Some ''/proj/node_modules/lodash/lodash.js''"
    by (simp add: applyPostfix_def resolveFilePathPostfix_def nonEmpty_def moduleRE_strip_def
        moduleRE_test_def startsWith_def pkg_eval)
  show ?thesis using 1 2 3 4 by blast
qed

section \<open>The check of the normalizer\<close>







section \<open>Normalizing twice\<close>















section \<open>From a file to its request and back\<close>




















end
